theory Spec2Isabelle
  imports Complex_Main "HOL-Library.Multiset"
begin

section \<open>Python strings\<close>

text \<open>
  A Python \<open>str\<close> is modelled as a HOL \<open>string\<close>. The character classes below are those of
  Python's \<open>str\<close> methods on ASCII text, which is what domain names, labels and verdicts
  are made of; a character outside ASCII belongs to no class and has no other case.
\<close>

definition ascii_uppercase :: string where
  "ascii_uppercase = ''ABCDEFGHIJKLMNOPQRSTUVWXYZ''"

definition ascii_lowercase :: string where
  "ascii_lowercase = ''abcdefghijklmnopqrstuvwxyz''"

definition ascii_digits :: string where
  "ascii_digits = ''0123456789''"

text \<open>\<open>str.isspace\<close> on ASCII: tab, line feed, vertical tab, form feed, carriage return,
  the four separators 0x1C..0x1F and the space.\<close>

definition py_isspace :: "char \<Rightarrow> bool" where
  "py_isspace c = (c \<in> set [CHR 0x09, CHR 0x0A, CHR 0x0B, CHR 0x0C, CHR 0x0D,
                               CHR 0x1C, CHR 0x1D, CHR 0x1E, CHR 0x1F, CHR 0x20])"

definition py_isdigit :: "char \<Rightarrow> bool" where
  "py_isdigit c = (c \<in> set ascii_digits)"

definition py_isalpha :: "char \<Rightarrow> bool" where
  "py_isalpha c = (c \<in> set ascii_uppercase \<or> c \<in> set ascii_lowercase)"

definition py_isalnum :: "char \<Rightarrow> bool" where
  "py_isalnum c = (py_isalpha c \<or> py_isdigit c)"

definition lower_char :: "char \<Rightarrow> char" where
  "lower_char c = (case map_of (zip ascii_uppercase ascii_lowercase) c of
                     Some l \<Rightarrow> l | None \<Rightarrow> c)"

definition upper_char :: "char \<Rightarrow> char" where
  "upper_char c = (case map_of (zip ascii_lowercase ascii_uppercase) c of
                     Some u \<Rightarrow> u | None \<Rightarrow> c)"

definition py_lower :: "string \<Rightarrow> string" where
  "py_lower s = map lower_char s"

definition py_upper :: "string \<Rightarrow> string" where
  "py_upper s = map upper_char s"

text \<open>\<open>s.strip()\<close>: leading and trailing whitespace removed.\<close>

definition py_strip :: "string \<Rightarrow> string" where
  "py_strip s = rev (dropWhile py_isspace (rev (dropWhile py_isspace s)))"

text \<open>\<open>s.rsplit(sep, 1)\<close> for a one-character separator: the part before the last
  occurrence and the part after it, or the string alone when the separator is absent.\<close>

definition py_rsplit1 :: "char \<Rightarrow> string \<Rightarrow> string list" where
  "py_rsplit1 sep s =
     (if sep \<in> set s
      then [rev (tl (dropWhile (\<lambda>c. c \<noteq> sep) (rev s))), rev (takeWhile (\<lambda>c. c \<noteq> sep) (rev s))]
      else [s])"


section \<open>Exceptions\<close>

text \<open>A raised exception is a value: a computation that may raise returns \<open>exn + 'a\<close>,
  with \<open>Inl\<close> the exception. \<open>try_except\<close> is a \<open>try\<close> block whose handler catches every
  exception.\<close>

datatype exn = Exception string

definition exn_bind :: "exn + 'a \<Rightarrow> ('a \<Rightarrow> exn + 'b) \<Rightarrow> exn + 'b" where
  "exn_bind m f = (case m of Inl e \<Rightarrow> Inl e | Inr x \<Rightarrow> f x)"

definition try_except :: "exn + 'a \<Rightarrow> (exn \<Rightarrow> exn + 'a) \<Rightarrow> exn + 'a" where
  "try_except body handler = (case body of Inl e \<Rightarrow> handler e | Inr x \<Rightarrow> Inr x)"

section \<open>Defender: feature extraction (defende\_v2.py)\<close>

text \<open>Python numbers in a feature vector: the counts are \<open>int\<close>s, the ratio and the entropy
  are \<open>float\<close>s. Floating-point numbers are idealised as reals.\<close>

datatype pynum = PyInt int | PyFloat real

fun py_float :: "pynum \<Rightarrow> real" where
  "py_float (PyInt n) = of_int n"
| "py_float (PyFloat r) = r"

text \<open>\<open>shannon_entropy\<close>: \<open>set(s)\<close> is enumerated by \<open>remdups\<close>; over the reals the sum
  does not depend on the order of enumeration.\<close>

definition shannon_entropy :: "string \<Rightarrow> real" where
  "shannon_entropy s =
     (if s = [] then 0
      else (let probs = map (\<lambda>c. c / real (length s)) (map (\<lambda>x. real (count_list s x)) (remdups s))
            in - sum_list (map (\<lambda>p. p * log 2 p) probs)))"

definition extract_features_from_domain :: "string \<Rightarrow> pynum list" where
  "extract_features_from_domain domain0 =
     (let domain = py_lower (py_strip domain0);
          name = (if CHR ''.'' \<in> set domain then py_rsplit1 (CHR ''.'') domain ! 0 else domain);
          tld = (if CHR ''.'' \<in> set domain then py_rsplit1 (CHR ''.'') domain ! 1 else '''');
          len = int (length name);
          digits = int (length (filter py_isdigit name));
          letters = int (length (filter py_isalpha name));
          vowels = int (length (filter (\<lambda>c. c \<in> set ''aeiou'') name));
          consonants = letters - vowels;
          unique_chars = int (length (remdups name));
          digit_ratio = (if len > 0 then real_of_int digits / real_of_int len else 0);
          entropy = shannon_entropy name
      in [PyInt len, PyInt digits, PyInt letters, PyInt unique_chars, PyInt vowels,
          PyInt consonants, PyFloat digit_ratio, PyFloat entropy])"

section \<open>Defender: classification (defende\_v2.py)\<close>

text \<open>
  What \<open>clf.predict(X)[0]\<close> can be: a numeric class (an integer, a finite float, or a float
  that is NaN or infinite), or any other class label, given by its \<open>str()\<close>.
\<close>

datatype pred = PInt int | PFloat real | PNonFinite | PStr string

text \<open>
  The trained decision tree is an object of scikit-learn: its methods are fields of the
  record, and each call either raises or returns. \<open>predict_proba\<close> returns the row
  \<open>proba[0]\<close>.
\<close>

record classifier =
  predict :: "real list \<Rightarrow> exn + pred"
  predict_proba :: "real list \<Rightarrow> exn + real list"
  classes :: "pred list"

text \<open>The module's global state: the manual block list and the model, which is \<open>None\<close>
  or the pair of the classifier and the training columns. With them goes the process's
  standard output, as \<open>print\<close> meets it: \<open>stdout_print line\<close> is \<open>None\<close> when the line is
  written and the exception that \<open>print\<close> raises otherwise (a closed pipe, a character the
  stream cannot encode).\<close>

record defender_state =
  manual_block :: "string set"
  model :: "(classifier \<times> string list) option"
  stdout_print :: "string \<Rightarrow> exn option"

text \<open>
  \<open>log\<close>: the line is printed, then appended to the log file inside a \<open>try\<close> whose handler
  passes. The \<open>print\<close> stands outside that \<open>try\<close>, so \<open>log\<close> raises exactly when \<open>print\<close>
  does. The timestamp that \<open>log\<close> puts before the message is left out.
\<close>

definition defender_log :: "defender_state \<Rightarrow> string \<Rightarrow> exn + unit" where
  "defender_log st msg = (case stdout_print st msg of Some e \<Rightarrow> Inl e | None \<Rightarrow> Inr ())"

text \<open>\<open>str(e)\<close> of an exception, and the line of the error branch of \<open>classify_domain\<close>.\<close>

fun str_of_exn :: "exn \<Rightarrow> string" where
  "str_of_exn (Exception s) = s"

definition prediction_error_line :: "string \<Rightarrow> exn \<Rightarrow> string" where
  "prediction_error_line domain e =
     ''Model prediction error for domain '' @ domain @ '': '' @ str_of_exn e"

text \<open>\<open>int(x)\<close> of a finite float truncates towards zero.\<close>

definition py_int_of_float :: "real \<Rightarrow> int" where
  "py_int_of_float r = (if 0 \<le> r then \<lfloor>r\<rfloor> else \<lceil>r\<rceil>)"

text \<open>The verdict of a prediction: \<open>int(pred) == 1\<close> for a numeric class (\<open>int\<close> raises on
  NaN and on an infinity), \<open>str(pred).upper()\<close> otherwise.\<close>

fun verdict_of_pred :: "pred \<Rightarrow> exn + string" where
  "verdict_of_pred (PInt n) = Inr (if n = 1 then ''DGA'' else ''NOT_DGA'')"
| "verdict_of_pred (PFloat r) = Inr (if py_int_of_float r = 1 then ''DGA'' else ''NOT_DGA'')"
| "verdict_of_pred PNonFinite = Inl (Exception ''ValueError'')"
| "verdict_of_pred (PStr s) = Inr (py_upper s)"

text \<open>\<open>list(classes).index(pred)\<close> raises \<open>ValueError\<close> when the value is absent;
  \<open>proba[0][class_index]\<close> raises \<open>IndexError\<close> out of range.\<close>

fun py_index :: "'a list \<Rightarrow> 'a \<Rightarrow> exn + nat" where
  "py_index [] v = Inl (Exception ''ValueError'')"
| "py_index (x # xs) v =
     (if x = v then Inr 0 else exn_bind (py_index xs v) (\<lambda>i. Inr (Suc i)))"

definition py_getitem :: "'a list \<Rightarrow> nat \<Rightarrow> exn + 'a" where
  "py_getitem xs i = (if i < length xs then Inr (xs ! i) else Inl (Exception ''IndexError''))"

text \<open>The inner \<open>try\<close> of \<open>classify_domain\<close>: the probability of the predicted class, and
  0.0 when anything in the block raises.\<close>

definition confidence_of :: "classifier \<Rightarrow> real list \<Rightarrow> pred \<Rightarrow> real" where
  "confidence_of clf X p =
     (case try_except
             (exn_bind (predict_proba clf X) (\<lambda>proba.
              exn_bind (py_index (classes clf) p) (\<lambda>class_index.
              py_getitem proba class_index)))
             (\<lambda>e. Inr 0)
      of Inr c \<Rightarrow> c | Inl e \<Rightarrow> 0)"

text \<open>
  \<open>classify_domain\<close>. The result is \<open>Inr\<close> of the returned triple, or \<open>Inl\<close> of an exception
  that leaves the function. The handler of the outer \<open>try\<close> logs before it returns: an
  exception raised by that \<open>log\<close> call is raised inside the handler and leaves the function.
\<close>

definition classify_domain :: "defender_state \<Rightarrow> string \<Rightarrow> exn + (string \<times> real \<times> string)" where
  "classify_domain st domain0 =
     (let domain = py_lower (py_strip domain0) in
      if domain \<in> manual_block st then Inr (''DGA'', 1, ''manual_block'')
      else
        (let feats = extract_features_from_domain domain;
             X = map py_float feats
         in case model st of
              None \<Rightarrow> Inr (''NOT_DGA'', 0, ''fallback_no_model'')
            | Some (clf, feature_cols) \<Rightarrow>
                try_except
                  (exn_bind (predict clf X) (\<lambda>p.
                   exn_bind (verdict_of_pred p) (\<lambda>verdict.
                   Inr (verdict, confidence_of clf X p, ''model''))))
                  (\<lambda>e. exn_bind (defender_log st (prediction_error_line domain e))
                         (\<lambda>u. Inr (''UNKNOWN'', 0, ''error'')))))"

text \<open>A standard output that takes every line, and one whose reader is gone.\<close>

definition quiet_stdout :: "string \<Rightarrow> exn option" where
  "quiet_stdout line = None"


text \<open>A classifier that answers class 0 with probability 1 for every input, used to
  exercise the definitions with a model loaded.\<close>

definition benign_clf :: classifier where
  "benign_clf = \<lparr>predict = (\<lambda>X. Inr (PInt 0)), predict_proba = (\<lambda>X. Inr [1, 0]),
                 classes = [PInt 0, PInt 1]\<rparr>"



text \<open>
  The feature extractor as the specification words it (section 4.3: no normalisation beyond
  lower-casing the whole domain first), for comparison with the code.
\<close>

definition spec_extract_features :: "string \<Rightarrow> pynum list" where
  "spec_extract_features domain0 =
     (let domain = py_lower domain0;
          name = (if CHR ''.'' \<in> set domain then py_rsplit1 (CHR ''.'') domain ! 0 else domain);
          len = int (length name);
          digits = int (length (filter py_isdigit name));
          letters = int (length (filter py_isalpha name));
          vowels = int (length (filter (\<lambda>c. c \<in> set ''aeiou'') name));
          digit_ratio = (if name = [] then 0 else real_of_int digits / real_of_int len)
      in [PyInt len, PyInt digits, PyInt letters, PyInt (int (card (set name))), PyInt vowels,
          PyInt (letters - vowels), PyFloat digit_ratio, PyFloat (shannon_entropy name)])"

section \<open>Attacker: request matching (attacker\_v2.py)\<close>


text \<open>The global rotation state: \<open>current_labels\<close> is a list, \<open>current_active\<close> a set.\<close>

record attacker_state =
  current_labels :: "string list"
  current_active :: "string set"











section \<open>Victim: the decision loop (victim\_v2.py)\<close>

text \<open>A JSON value, as \<open>resp.json()\<close> returns it.\<close>

datatype json = JNull | JBool bool | JNum real | JStr string | JArr "json list"
  | JObj "(string \<times> json) list"













section \<open>The domain generation algorithm (victim\_v2.py, attacker\_v2.py)\<close>

text \<open>
  \<open>hashlib.sha256(...).digest()\<close> is a function of the standard library: the definitions
  take it as the parameter \<open>sha256\<close>, from the input bytes to the digest bytes. A \<open>str\<close>
  that is encoded to bytes (the seed, the timestamp) is modelled by its UTF-8 bytes.
\<close>

text \<open>\<open>str(n)\<close> of an integer: its decimal digits, with a minus sign if negative.\<close>

fun str_of_nat :: "nat \<Rightarrow> string" where
  "str_of_nat n =
     (if n < 10 then [ascii_digits ! n] else str_of_nat (n div 10) @ [ascii_digits ! (n mod 10)])"

declare str_of_nat.simps [simp del]

definition py_str_int :: "int \<Rightarrow> string" where
  "py_str_int i = (if i < 0 then ''-'' @ str_of_nat (nat (- i)) else str_of_nat (nat i))"

text \<open>\<open>xs[:n]\<close>: the first \<open>n\<close> elements, or all but the last \<open>-n\<close> when \<open>n\<close> is negative.\<close>

definition py_slice_to :: "int \<Rightarrow> 'a list \<Rightarrow> 'a list" where
  "py_slice_to n xs = (if 0 \<le> n then take (nat n) xs else take (length xs - nat (- n)) xs)"

text \<open>\<open>base64.b32encode\<close> (RFC 4648): the bits of the bytes, most significant first, in
  groups of five (the last group filled with zero bits), each group a character of the
  alphabet, and \<open>=\<close> up to a multiple of eight characters.\<close>

definition b32_alphabet :: string where
  "b32_alphabet = ''ABCDEFGHIJKLMNOPQRSTUVWXYZ234567''"

definition bits_of_byte :: "char \<Rightarrow> bool list" where
  "bits_of_byte c = (case c of Char b0 b1 b2 b3 b4 b5 b6 b7 \<Rightarrow> [b7, b6, b5, b4, b3, b2, b1, b0])"

definition nat_of_bits :: "bool list \<Rightarrow> nat" where
  "nat_of_bits bs = foldl (\<lambda>n b. 2 * n + (if b then 1 else 0)) 0 bs"

fun groups5 :: "bool list \<Rightarrow> bool list list" where
  "groups5 [] = []"
| "groups5 (b # bs) = take 5 (b # bs @ replicate 4 False) # groups5 (drop 4 bs)"

definition b32encode :: "string \<Rightarrow> string" where
  "b32encode bytes =
     (let chars = map (\<lambda>g. b32_alphabet ! nat_of_bits g) (groups5 (concat (map bits_of_byte bytes)))
      in chars @ replicate ((8 - length chars mod 8) mod 8) (CHR ''=''))"

definition victim_generate_domain_label ::
  "(string \<Rightarrow> string) \<Rightarrow> string \<Rightarrow> string \<Rightarrow> int \<Rightarrow> int \<Rightarrow> string" where
  "victim_generate_domain_label sha256 seed timestamp_str index label_length =
     (let input_bytes = seed @ '':'' @ timestamp_str @ '':'' @ py_str_int index;
          digest = sha256 input_bytes;
          b32 = filter (\<lambda>c. c \<noteq> CHR ''='') (py_lower (b32encode digest));
          label = py_slice_to label_length (filter py_isalnum b32);
          label = (if label \<noteq> [] \<and> py_isdigit (label ! 0) then ''a'' @ drop 1 label else label)
      in label)"

definition attacker_generate_domain_label ::
  "(string \<Rightarrow> string) \<Rightarrow> string \<Rightarrow> string \<Rightarrow> int \<Rightarrow> int \<Rightarrow> string" where
  "attacker_generate_domain_label sha256 seed timestamp_str index label_length =
     (let input_bytes = seed @ '':'' @ timestamp_str @ '':'' @ py_str_int index;
          digest = sha256 input_bytes;
          b32 = filter (\<lambda>c. c \<noteq> CHR ''='') (py_lower (b32encode digest));
          label = py_slice_to label_length (filter py_isalnum b32);
          label = (if label \<noteq> [] \<and> py_isdigit (label ! 0) then ''a'' @ drop 1 label else label)
      in label)"

text \<open>Configuration. Both processes use the same seed and the same set size.\<close>

definition SEED :: string where
  "SEED = ''spreadlove''"

definition SET_SIZE :: int where
  "SET_SIZE = 10"

definition ACTIVE_PER_SET :: int where
  "ACTIVE_PER_SET = 5"

definition LABEL_LENGTH :: int where
  "LABEL_LENGTH = 12"


text \<open>
  The \<open>while\<close> loop of \<open>generate_set\<close>, the same in both files: \<open>gen\<close> is the call of the
  file's own \<open>generate_domain_label\<close> at the seed and timestamp. The loop is unbounded, so
  the function is partial: \<open>None\<close> stands for a loop that never ends.
\<close>

partial_function (option) collect_labels ::
  "(int \<Rightarrow> string) \<Rightarrow> int \<Rightarrow> string list \<Rightarrow> int \<Rightarrow> string list option" where
  "collect_labels gen set_size labels i =
     (if int (length labels) < set_size
      then (let label = gen i
            in collect_labels gen set_size (if label \<notin> set labels then labels @ [label] else labels) (i + 1))
      else Some labels)"

declare collect_labels.simps [code]

text \<open>One pass of the loop body over the labels collected so far.\<close>

definition collect_step :: "(int \<Rightarrow> string) \<Rightarrow> string list \<Rightarrow> int \<Rightarrow> string list" where
  "collect_step gen labels i = (if gen i \<notin> set labels then labels @ [gen i] else labels)"


definition attacker_generate_set ::
  "(string \<Rightarrow> string) \<Rightarrow> ('t \<Rightarrow> string) \<Rightarrow> string \<Rightarrow> 't \<Rightarrow> string list option" where
  "attacker_generate_set sha256 utc_minute seed set_time =
     (let timestamp_str = utc_minute set_time
      in collect_labels (\<lambda>i. attacker_generate_domain_label sha256 seed timestamp_str i LABEL_LENGTH)
           SET_SIZE [] 0)"

section \<open>Attacker: the rotation loop (attacker\_v2.py)\<close>

text \<open>
  \<open>random.sample(population, k)\<close>, with the random numbers it draws as the explicit source
  \<open>rs\<close>. It raises \<open>ValueError\<close> when \<open>k\<close> is negative or larger than the population.
  Otherwise (for a population as small as a label set) it copies the population into a
  pool and draws \<open>k\<close> times: a position below the number of elements left, whose element
  is selected and replaced by the last element left.
\<close>

fun sample_from :: "nat list \<Rightarrow> 'a list \<Rightarrow> nat \<Rightarrow> 'a list" where
  "sample_from rs pool 0 = []"
| "sample_from rs pool (Suc k) =
     (let j = (case rs of [] \<Rightarrow> 0 | r # rs' \<Rightarrow> r) mod length pool
      in pool ! j # sample_from (tl rs) (butlast (pool[j := last pool])) k)"

definition random_sample :: "nat list \<Rightarrow> 'a list \<Rightarrow> int \<Rightarrow> exn + 'a list" where
  "random_sample rs population k =
     (if k < 0 \<or> int (length population) < k then Inl (Exception ''ValueError'')
      else Inr (sample_from rs population (nat k)))"

text \<open>
  One pass of \<open>rotate_sets_loop\<close>: generate the set, sample the active labels, and replace
  both globals under the lock. The result is \<open>None\<close> when \<open>generate_set\<close> does not return,
  and \<open>Some (Inl e)\<close> when an exception leaves the pass.
\<close>

definition rotate_step ::
  "(string \<Rightarrow> string) \<Rightarrow> ('t \<Rightarrow> string) \<Rightarrow> 't \<Rightarrow> nat list \<Rightarrow> attacker_state
     \<Rightarrow> (exn + attacker_state) option" where
  "rotate_step sha256 utc_minute set_time rs st =
     (case attacker_generate_set sha256 utc_minute SEED set_time of
        None \<Rightarrow> None
      | Some labels \<Rightarrow>
          Some (exn_bind (random_sample rs labels (min ACTIVE_PER_SET (int (length labels))))
                  (\<lambda>sample. let active = set sample
                            in Inr (st\<lparr>current_labels := labels, current_active := active\<rparr>))))"

text \<open>The loop, over the passes it makes before the stop event is set: each pass has its
  clock reading and its random numbers.\<close>

fun rotate_sets_loop ::
  "(string \<Rightarrow> string) \<Rightarrow> ('t \<Rightarrow> string) \<Rightarrow> ('t \<times> nat list) list \<Rightarrow> attacker_state
     \<Rightarrow> (exn + attacker_state) option" where
  "rotate_sets_loop sha256 utc_minute [] st = Some (Inr st)"
| "rotate_sets_loop sha256 utc_minute ((set_time, rs) # passes) st =
     (case rotate_step sha256 utc_minute set_time rs st of
        None \<Rightarrow> None
      | Some (Inl e) \<Rightarrow> Some (Inl e)
      | Some (Inr st') \<Rightarrow> rotate_sets_loop sha256 utc_minute passes st')"

text \<open>The state at start-up, and the invariant of the published state.\<close>

definition initial_attacker_state :: attacker_state where
  "initial_attacker_state = \<lparr>current_labels = [], current_active = {}\<rparr>"

definition subset_invariant :: "attacker_state \<Rightarrow> bool" where
  "subset_invariant st =
     (current_active st \<subseteq> set (current_labels st)
      \<and> int (card (current_active st)) = min ACTIVE_PER_SET (int (length (current_labels st))))"

text \<open>
  Stand-ins for the two library functions, to run the definitions on concrete inputs: a
  digest of 32 bytes, each the last byte of the input, and a clock that reads the first
  minute of 2024.
\<close>

definition demo_sha256 :: "string \<Rightarrow> string" where
  "demo_sha256 input_bytes = replicate 32 (last input_bytes)"

definition demo_utc_minute :: "unit \<Rightarrow> string" where
  "demo_utc_minute set_time = ''202401010000''"

definition demo_labels :: "string list" where
  "demo_labels = [''gaydambqgayd'', ''geytcmjrgeyt'', ''gizdemrsgizd'', ''gmztgmztgmzt'',
                  ''gq2dinbugq2d'', ''gu2tknjvgu2t'', ''gy3dmnrwgy3d'', ''g43tonzxg43t'',
                  ''ha4dqobyha4d'', ''he4tsojzhe4t'']"

section \<open>Facts about strings\<close>

lemma upper_lower_disjoint: "set ascii_uppercase \<inter> set ascii_lowercase = {}"
  by (simp add: ascii_uppercase_def ascii_lowercase_def)

lemma length_upper_lower: "length ascii_uppercase = length ascii_lowercase"
  by (simp add: ascii_uppercase_def ascii_lowercase_def)

lemma lower_char_cases:
  "lower_char c = c \<or> (c \<in> set ascii_uppercase \<and> lower_char c \<in> set ascii_lowercase)"
proof (cases "map_of (zip ascii_uppercase ascii_lowercase) c")
  case None
  then show ?thesis by (simp add: lower_char_def)
next
  case (Some l)
  then have "(c, l) \<in> set (zip ascii_uppercase ascii_lowercase)" by (rule map_of_SomeD)
  then have "c \<in> set ascii_uppercase" "l \<in> set ascii_lowercase"
    by (auto dest: set_zip_leftD set_zip_rightD)
  with Some show ?thesis by (simp add: lower_char_def)
qed

lemma lower_fixed: "c \<notin> set ascii_uppercase \<Longrightarrow> lower_char c = c"
proof -
  assume "c \<notin> set ascii_uppercase"
  then have "map_of (zip ascii_uppercase ascii_lowercase) c = None"
    by (auto simp: map_of_eq_None_iff dest: set_zip_leftD)
  then show ?thesis by (simp add: lower_char_def)
qed

lemma upper_not_space: "c \<in> set ascii_uppercase \<Longrightarrow> \<not> py_isspace c"
  by (auto simp: ascii_uppercase_def py_isspace_def)

lemma lower_not_space: "c \<in> set ascii_lowercase \<Longrightarrow> \<not> py_isspace c"
  by (auto simp: ascii_lowercase_def py_isspace_def)

lemma isspace_lower_char: "py_isspace (lower_char c) = py_isspace c"
  using lower_char_cases [of c] upper_not_space lower_not_space by auto

lemma lower_char_idem: "lower_char (lower_char c) = lower_char c"
  using lower_char_cases [of c] lower_fixed upper_lower_disjoint by auto

lemma dropWhile_snoc_keep: "\<not> P x \<Longrightarrow> dropWhile P (ys @ [x]) = dropWhile P ys @ [x]"
  by (induction ys) auto

lemma dropWhile_rev_dropWhile:
  "dropWhile P (rev (dropWhile P (rev (dropWhile P s)))) = rev (dropWhile P (rev (dropWhile P s)))"
proof (cases "dropWhile P s")
  case Nil
  show ?thesis unfolding Nil by simp
next
  case (Cons x xs)
  then have nx: "\<not> P x" by (metis hd_dropWhile list.sel(1) list.distinct(1))
  have "dropWhile P (rev (dropWhile P (rev xs) @ [x])) = rev (dropWhile P (rev xs) @ [x])"
    using nx by simp
  then show ?thesis unfolding Cons using nx by (simp add: dropWhile_snoc_keep)
qed

lemma py_strip_idem: "py_strip (py_strip s) = py_strip s"
  by (simp add: py_strip_def dropWhile_rev_dropWhile)

lemma py_lower_idem: "py_lower (py_lower s) = py_lower s"
  by (simp add: py_lower_def lower_char_idem)

lemma dropWhile_isspace_lower:
  "dropWhile py_isspace (map lower_char s) = map lower_char (dropWhile py_isspace s)"
  by (induction s) (simp_all add: isspace_lower_char)

lemma py_strip_lower: "py_strip (py_lower s) = py_lower (py_strip s)"
  by (simp add: py_strip_def py_lower_def dropWhile_isspace_lower rev_map)

lemma normalize_idem:
  "py_lower (py_strip (py_lower (py_strip s))) = py_lower (py_strip s)"
  by (simp add: py_strip_lower py_lower_idem py_strip_idem)

lemma rsplit1_parts:
  assumes "sep \<in> set s"
  shows "s = py_rsplit1 sep s ! 0 @ [sep] @ py_rsplit1 sep s ! 1"
    and "sep \<notin> set (py_rsplit1 sep s ! 1)"
proof -
  let ?r = "rev s"
  from assms have in_rev: "sep \<in> set ?r" by simp
  then have ne: "dropWhile (\<lambda>c. c \<noteq> sep) ?r \<noteq> []"
    by (auto simp: dropWhile_eq_Nil_conv)
  then have hd_sep: "hd (dropWhile (\<lambda>c. c \<noteq> sep) ?r) = sep"
    using hd_dropWhile [of "\<lambda>c. c \<noteq> sep" ?r] by simp
  have "?r = takeWhile (\<lambda>c. c \<noteq> sep) ?r @ dropWhile (\<lambda>c. c \<noteq> sep) ?r" by simp
  also have "dropWhile (\<lambda>c. c \<noteq> sep) ?r = sep # tl (dropWhile (\<lambda>c. c \<noteq> sep) ?r)"
    using ne hd_sep by (metis list.collapse)
  finally have "?r = takeWhile (\<lambda>c. c \<noteq> sep) ?r @ sep # tl (dropWhile (\<lambda>c. c \<noteq> sep) ?r)" .
  then have "rev ?r = rev (takeWhile (\<lambda>c. c \<noteq> sep) ?r @ sep # tl (dropWhile (\<lambda>c. c \<noteq> sep) ?r))"
    by simp
  then show "s = py_rsplit1 sep s ! 0 @ [sep] @ py_rsplit1 sep s ! 1"
    using assms by (simp add: py_rsplit1_def)
  show "sep \<notin> set (py_rsplit1 sep s ! 1)"
    using assms by (auto simp: py_rsplit1_def dest: set_takeWhileD)
qed

lemma strip_lower_example:
  "py_lower (py_strip ''  Evil-DGA123.net '') = ''evil-dga123.net''"
  by (simp add: py_lower_def py_strip_def py_isspace_def lower_char_def
      ascii_uppercase_def ascii_lowercase_def)

lemma lower_example: "py_lower (py_strip ''Example.COM'') = ''example.com''"
  by (simp add: py_lower_def py_strip_def py_isspace_def lower_char_def
      ascii_uppercase_def ascii_lowercase_def)

lemma lower_evil: "py_lower (py_strip ''EVIL.COM'') = ''evil.com''"
  by (simp add: py_lower_def py_strip_def py_isspace_def lower_char_def
      ascii_uppercase_def ascii_lowercase_def)

lemma norm_abc123: "py_lower (py_strip ''abc123.com'') = ''abc123.com''"
  by (simp add: py_lower_def py_strip_def py_isspace_def lower_char_def
      ascii_uppercase_def ascii_lowercase_def)

section \<open>Defender: the feature vector\<close>

lemma entropy_as_sum:
  "shannon_entropy s =
     - (\<Sum>c\<in>set s. (real (count_list s c) / real (length s))
                       * log 2 (real (count_list s c) / real (length s)))"
proof (cases "s = []")
  case True
  then show ?thesis by (simp add: shannon_entropy_def)
next
  case False
  have "sum_list (map (\<lambda>c. (real (count_list s c) / real (length s))
                       * log 2 (real (count_list s c) / real (length s))) (remdups s))
        = (\<Sum>c\<in>set s. (real (count_list s c) / real (length s))
                       * log 2 (real (count_list s c) / real (length s)))"
    using sum_list_distinct_conv_sum_set [of "remdups s"] by simp
  with False show ?thesis
    by (simp add: shannon_entropy_def Let_def comp_def)
qed

lemma entropy_abc123: "shannon_entropy ''abc123'' = log 2 6"
  by (simp add: shannon_entropy_def log_divide)

lemma features_abc123:
  "extract_features_from_domain ''abc123.com'' =
     [PyInt 6, PyInt 3, PyInt 3, PyInt 6, PyInt 1, PyInt 2, PyFloat (1 / 2), PyFloat (log 2 6)]"
  by (simp add: extract_features_from_domain_def py_lower_def py_strip_def py_isspace_def
      lower_char_def ascii_uppercase_def ascii_lowercase_def ascii_digits_def py_rsplit1_def
      py_isdigit_def py_isalpha_def entropy_abc123 Let_def)

lemma length_remdups_card: "int (length (remdups xs)) = int (card (set xs))"
  by (simp add: length_remdups_card_conv)

text \<open>
  Claim C7, as amended. For every domain, \<open>extract_features_from_domain\<close> strips the
  surrounding whitespace and lower-cases the domain, takes the label \<open>name\<close> as the part
  before the last dot (the whole string if there is no dot), and returns the vector
  [length, digit count, letter count, number of distinct characters, vowel count,
  consonant count = letters - vowels, digit ratio (0.0 for the empty label), Shannon
  entropy], where the entropy is minus the sum of p(c) * log2 p(c) over the distinct
  characters, which is 0 for the empty label. In particular the vector of "abc123.com"
  is [6, 3, 3, 6, 1, 2, 0.5, log2 6].
\<close>

theorem extract_features_spec:
  "\<exists>name tld.
     (if CHR ''.'' \<in> set (py_lower (py_strip domain0))
      then py_lower (py_strip domain0) = name @ ''.'' @ tld \<and> CHR ''.'' \<notin> set tld
      else name = py_lower (py_strip domain0) \<and> tld = '''')
     \<and> extract_features_from_domain domain0 =
         [PyInt (int (length name)),
          PyInt (int (length (filter py_isdigit name))),
          PyInt (int (length (filter py_isalpha name))),
          PyInt (int (card (set name))),
          PyInt (int (length (filter (\<lambda>c. c \<in> set ''aeiou'') name))),
          PyInt (int (length (filter py_isalpha name)) - int (length (filter (\<lambda>c. c \<in> set ''aeiou'') name))),
          PyFloat (if name = [] then 0 else real (length (filter py_isdigit name)) / real (length name)),
          PyFloat (- (\<Sum>c\<in>set name. (real (count_list name c) / real (length name))
                                      * log 2 (real (count_list name c) / real (length name))))]
     \<and> shannon_entropy '''' = 0
     \<and> extract_features_from_domain ''abc123.com'' =
         [PyInt 6, PyInt 3, PyInt 3, PyInt 6, PyInt 1, PyInt 2, PyFloat (1 / 2), PyFloat (log 2 6)]"
proof -
  let ?d = "py_lower (py_strip domain0)"
  let ?name = "if CHR ''.'' \<in> set ?d then py_rsplit1 (CHR ''.'') ?d ! 0 else ?d"
  let ?tld = "if CHR ''.'' \<in> set ?d then py_rsplit1 (CHR ''.'') ?d ! 1 else ''''"
  have split: "if CHR ''.'' \<in> set ?d then ?d = ?name @ ''.'' @ ?tld \<and> CHR ''.'' \<notin> set ?tld
               else ?name = ?d \<and> ?tld = ''''"
    using rsplit1_parts [of "CHR ''.''" ?d] by auto
  have feats: "extract_features_from_domain domain0 =
         [PyInt (int (length ?name)),
          PyInt (int (length (filter py_isdigit ?name))),
          PyInt (int (length (filter py_isalpha ?name))),
          PyInt (int (card (set ?name))),
          PyInt (int (length (filter (\<lambda>c. c \<in> set ''aeiou'') ?name))),
          PyInt (int (length (filter py_isalpha ?name)) - int (length (filter (\<lambda>c. c \<in> set ''aeiou'') ?name))),
          PyFloat (if ?name = [] then 0 else real (length (filter py_isdigit ?name)) / real (length ?name)),
          PyFloat (- (\<Sum>c\<in>set ?name. (real (count_list ?name c) / real (length ?name))
                                      * log 2 (real (count_list ?name c) / real (length ?name))))]"
    unfolding extract_features_from_domain_def Let_def normalize_idem
      length_remdups_card entropy_as_sum [symmetric]
    by simp
  have e0: "shannon_entropy '''' = 0" by (simp add: shannon_entropy_def)
  from split feats e0 features_abc123 show ?thesis by blast
qed

text \<open>
  The claim as stated leaves the stripping out: on " ab" (a leading space, no dot) the code
  measures the label "ab", of length 2, where lower-casing alone gives a label of length 3.
\<close>

theorem extract_features_strip_counterexample:
  "extract_features_from_domain '' ab'' \<noteq> spec_extract_features '' ab''
   \<and> hd (extract_features_from_domain '' ab'') = PyInt 2
   \<and> hd (spec_extract_features '' ab'') = PyInt 3"
  by (simp add: extract_features_from_domain_def spec_extract_features_def py_lower_def py_strip_def
      py_isspace_def lower_char_def ascii_uppercase_def ascii_lowercase_def Let_def)

section \<open>Defender: the classifier's precedence\<close>

text \<open>
  Claim C4. For every domain whose normalised form (stripped, lower-cased) is in the manual
  block set, \<open>classify_domain\<close> returns exactly \<open>("DGA", 1.0, "manual_block")\<close>, whatever
  the model is (loaded or not) and whatever the domain's features are.
\<close>

theorem classify_manual_block:
  "py_lower (py_strip domain0) \<in> manual_block st \<Longrightarrow>
   classify_domain st domain0 = Inr (''DGA'', 1, ''manual_block'')"
  by (simp add: classify_domain_def)

theorem classify_manual_block_witness:
  "py_lower (py_strip ''  Evil-DGA123.net '')
     \<in> manual_block \<lparr>manual_block = {''evil-dga123.net''}, model = Some (benign_clf, []), stdout_print = quiet_stdout\<rparr>
   \<and> classify_domain \<lparr>manual_block = {''evil-dga123.net''}, model = Some (benign_clf, []), stdout_print = quiet_stdout\<rparr>
        ''  Evil-DGA123.net '' = Inr (''DGA'', 1, ''manual_block'')"
proof -
  have h: "py_lower (py_strip ''  Evil-DGA123.net '')
     \<in> manual_block \<lparr>manual_block = {''evil-dga123.net''}, model = Some (benign_clf, []), stdout_print = quiet_stdout\<rparr>"
    by (simp add: strip_lower_example)
  from h classify_manual_block [OF h] show ?thesis by simp
qed

text \<open>
  Claim C5, as amended. When no trained model is loaded, \<open>classify_domain\<close> returns exactly
  \<open>("NOT_DGA", 0.0, "fallback_no_model")\<close> for every domain whose normalised form
  (stripped, lower-cased) is not in the manual block set.
\<close>

theorem classify_fallback_no_model:
  "model st = None \<Longrightarrow> py_lower (py_strip domain0) \<notin> manual_block st \<Longrightarrow>
   classify_domain st domain0 = Inr (''NOT_DGA'', 0, ''fallback_no_model'')"
  by (simp add: classify_domain_def Let_def)

theorem classify_fallback_no_model_witness:
  "model \<lparr>manual_block = {''evil-dga123.net''}, model = None, stdout_print = quiet_stdout\<rparr> = None
   \<and> py_lower (py_strip ''Example.COM'') \<notin> manual_block \<lparr>manual_block = {''evil-dga123.net''}, model = None, stdout_print = quiet_stdout\<rparr>
   \<and> classify_domain \<lparr>manual_block = {''evil-dga123.net''}, model = None, stdout_print = quiet_stdout\<rparr> ''Example.COM''
       = Inr (''NOT_DGA'', 0, ''fallback_no_model'')"
proof -
  let ?st = "\<lparr>manual_block = {''evil-dga123.net''}, model = None, stdout_print = quiet_stdout\<rparr>"
  have m: "model ?st = None" by simp
  have b: "py_lower (py_strip ''Example.COM'') \<notin> manual_block ?st"
    by (simp add: lower_example)
  from m b classify_fallback_no_model [OF m b] show ?thesis by simp
qed

text \<open>
  Membership is tested on the normalised domain, not on the domain as given: with
  "evil.com" blocked and no model, "EVIL.COM" is not an element of the block set and is
  still answered \<open>("DGA", 1.0, "manual_block")\<close>.
\<close>

theorem classify_fallback_raw_membership_counterexample:
  "model \<lparr>manual_block = {''evil.com''}, model = None, stdout_print = quiet_stdout\<rparr> = None
   \<and> ''EVIL.COM'' \<notin> manual_block \<lparr>manual_block = {''evil.com''}, model = None, stdout_print = quiet_stdout\<rparr>
   \<and> classify_domain \<lparr>manual_block = {''evil.com''}, model = None, stdout_print = quiet_stdout\<rparr> ''EVIL.COM''
       = Inr (''DGA'', 1, ''manual_block'')
   \<and> classify_domain \<lparr>manual_block = {''evil.com''}, model = None, stdout_print = quiet_stdout\<rparr> ''EVIL.COM''
       \<noteq> Inr (''NOT_DGA'', 0, ''fallback_no_model'')"
  by (simp add: classify_domain_def lower_evil)

text \<open>
  Claim C10. \<open>classify_domain\<close> is invariant under normalisation of its input: for every
  string \<open>d\<close> and every state, \<open>classify_domain(d) = classify_domain(d.strip().lower())\<close>.
\<close>

theorem classify_normalization_invariant:
  "classify_domain st (py_lower (py_strip domain0)) = classify_domain st domain0"
  by (simp add: classify_domain_def normalize_idem)

lemma py_index_bound: "py_index xs v = Inr i \<Longrightarrow> i < length xs"
  by (induction xs arbitrary: i) (auto simp: exn_bind_def split: if_splits sum.splits)








section \<open>Attacker: the order of the handler's decisions\<close>








section \<open>Victim: connect only on NOT\_DGA\<close>






section \<open>The domain generation algorithm and the rotation\<close>

lemma collect_step_distinct: "distinct labels \<Longrightarrow> distinct (collect_step gen labels i)"
  by (simp add: collect_step_def)

lemma collect_step_set: "set (collect_step gen labels i) = insert (gen i) (set labels)"
  by (auto simp: collect_step_def)

lemma collect_step_length:
  "length (collect_step gen labels i) \<le> Suc (length labels)"
  "length labels \<le> length (collect_step gen labels i)"
  by (simp_all add: collect_step_def)

lemma foldl_collect_step_distinct:
  "distinct labels \<Longrightarrow> distinct (foldl (collect_step gen) labels is)"
  by (induction "is" arbitrary: labels) (simp_all add: collect_step_distinct)

lemma foldl_collect_step_set:
  "set (foldl (collect_step gen) labels is) = set labels \<union> gen ` set is"
  by (induction "is" arbitrary: labels) (auto simp: collect_step_set)

lemma collect_labels_partial:
  assumes "collect_labels gen set_size labels i = Some r"
  shows "(\<exists>m. i \<le> m \<and> r = foldl (collect_step gen) labels [i..m - 1])
   \<and> \<not> int (length r) < set_size
   \<and> (int (length labels) \<le> set_size \<longrightarrow> int (length r) = set_size)"
proof (rule collect_labels.raw_induct
    [where P = "\<lambda>gen set_size labels i r.
       (\<exists>m. i \<le> m \<and> r = foldl (collect_step gen) labels [i..m - 1])
       \<and> \<not> int (length r) < set_size
       \<and> (int (length labels) \<le> set_size \<longrightarrow> int (length r) = set_size)", OF _ assms])
  fix f :: "(int \<Rightarrow> string) \<Rightarrow> int \<Rightarrow> string list \<Rightarrow> int \<Rightarrow> string list option"
    and gen set_size labels i r
  assume IH: "\<And>gen set_size labels i r. f gen set_size labels i = Some r \<Longrightarrow>
       (\<exists>m. i \<le> m \<and> r = foldl (collect_step gen) labels [i..m - 1])
       \<and> \<not> int (length r) < set_size
       \<and> (int (length labels) \<le> set_size \<longrightarrow> int (length r) = set_size)"
    and body: "(if int (length labels) < set_size
                then (let label = gen i
                      in f gen set_size (if label \<notin> set labels then labels @ [label] else labels) (i + 1))
                else Some labels) = Some r"
  show "(\<exists>m. i \<le> m \<and> r = foldl (collect_step gen) labels [i..m - 1])
       \<and> \<not> int (length r) < set_size
       \<and> (int (length labels) \<le> set_size \<longrightarrow> int (length r) = set_size)"
  proof (cases "int (length labels) < set_size")
    case False
    with body have r: "r = labels" by simp
    have "i \<le> i \<and> labels = foldl (collect_step gen) labels [i..i - 1]" by simp
    then have "\<exists>m. i \<le> m \<and> labels = foldl (collect_step gen) labels [i..m - 1]" by blast
    with r False show ?thesis by auto
  next
    case True
    with body have rec: "f gen set_size (collect_step gen labels i) (i + 1) = Some r"
      by (simp add: collect_step_def Let_def)
    from IH [OF rec] obtain m where
      m: "i + 1 \<le> m" "r = foldl (collect_step gen) (collect_step gen labels i) [i + 1..m - 1]"
      and len: "\<not> int (length r) < set_size"
      and eq: "int (length (collect_step gen labels i)) \<le> set_size \<longrightarrow> int (length r) = set_size"
      by blast
    have "[i..m - 1] = i # [i + 1..m - 1]" using m(1) by (simp add: upto_rec1)
    then have "r = foldl (collect_step gen) labels [i..m - 1]" using m(2) by simp
    moreover have "i \<le> m" using m(1) by simp
    ultimately have ex: "\<exists>m. i \<le> m \<and> r = foldl (collect_step gen) labels [i..m - 1]" by blast
    have "int (length (collect_step gen labels i)) \<le> set_size"
      using True collect_step_length(1) [of gen labels i] by linarith
    with eq have "int (length r) = set_size" by simp
    with ex len show ?thesis by simp
  qed
qed



lemma length_bits_of_byte: "length (bits_of_byte c) = 8"
  by (cases c) (simp add: bits_of_byte_def)

lemma length_concat_bits: "length (concat (map bits_of_byte bs)) = 8 * length bs"
  by (induction bs) (simp_all add: length_bits_of_byte)

lemma length_groups5: "length (groups5 bs) = (length bs + 4) div 5"
  by (induction bs rule: groups5.induct) auto

lemma groups5_length: "g \<in> set (groups5 bs) \<Longrightarrow> length g = 5"
  by (induction bs rule: groups5.induct) auto

lemma foldl_bits_bound:
  "foldl (\<lambda>n b. 2 * n + (if b then 1 else 0)) (n::nat) bs < (n + 1) * 2 ^ length bs"
proof (induction bs arbitrary: n)
  case Nil
  then show ?case by simp
next
  case (Cons b bs)
  have "foldl (\<lambda>n b. 2 * n + (if b then 1 else 0)) (2 * n + (if b then 1 else 0)) bs
        < (2 * n + (if b then 1 else 0) + 1) * 2 ^ length bs"
    by (rule Cons.IH)
  also have "\<dots> \<le> (2 * n + 2) * 2 ^ length bs"
    by (rule mult_right_mono) simp_all
  also have "\<dots> = (n + 1) * 2 ^ length (b # bs)" by simp
  finally show ?case by simp
qed

lemma nat_of_bits_bound: "nat_of_bits bs < 2 ^ length bs"
  using foldl_bits_bound [of 0 bs] by (simp add: nat_of_bits_def)

lemma b32_char_in_alphabet:
  assumes "g \<in> set (groups5 bs)"
  shows "b32_alphabet ! nat_of_bits g \<in> set b32_alphabet"
proof -
  have "nat_of_bits g < 2 ^ 5" using nat_of_bits_bound [of g] groups5_length [OF assms] by simp
  moreover have "length b32_alphabet = 32" by (simp add: b32_alphabet_def)
  ultimately show ?thesis by (intro nth_mem) simp
qed

lemma b32_alphabet_split:
  "c \<in> set b32_alphabet \<Longrightarrow> c \<in> set ascii_uppercase \<or> c \<in> set ''234567''"
  by (auto simp: b32_alphabet_def ascii_uppercase_def)

lemma upper_to_lower:
  assumes "c \<in> set ascii_uppercase"
  shows "lower_char c \<in> set ascii_lowercase"
proof -
  from assms obtain l where l: "map_of (zip ascii_uppercase ascii_lowercase) c = Some l"
    using map_of_zip_is_Some [OF length_upper_lower, of c] by blast
  then have "l \<in> set ascii_lowercase" by (auto dest!: map_of_SomeD set_zip_rightD)
  with l show ?thesis by (simp add: lower_char_def)
qed

lemma eq_sign_not_lower: "CHR ''='' \<notin> set ascii_lowercase" "CHR ''='' \<notin> set ascii_uppercase"
  "CHR ''='' \<notin> set ''234567''"
  by (simp_all add: ascii_lowercase_def ascii_uppercase_def)

lemma b32_digits: "c \<in> set ''234567'' \<Longrightarrow> c \<notin> set ascii_uppercase \<and> py_isdigit c"
  by (auto simp: ascii_uppercase_def py_isdigit_def ascii_digits_def)

lemma b32_char_lowered:
  assumes "c \<in> set b32_alphabet"
  shows "py_isalnum (lower_char c)" and "lower_char c \<noteq> CHR ''=''"
proof -
  from b32_alphabet_split [OF assms]
  have "py_isalnum (lower_char c) \<and> lower_char c \<noteq> CHR ''=''"
  proof
    assume "c \<in> set ascii_uppercase"
    then have "lower_char c \<in> set ascii_lowercase" by (rule upper_to_lower)
    then show ?thesis using eq_sign_not_lower(1) by (auto simp: py_isalnum_def py_isalpha_def)
  next
    assume d: "c \<in> set ''234567''"
    then have "lower_char c = c" using b32_digits lower_fixed by blast
    with d b32_digits [OF d] eq_sign_not_lower(3) show ?thesis by (auto simp: py_isalnum_def)
  qed
  then show "py_isalnum (lower_char c)" and "lower_char c \<noteq> CHR ''=''" by simp_all
qed

lemma lower_eq_sign: "lower_char (CHR ''='') = CHR ''=''"
  using lower_fixed eq_sign_not_lower(2) by blast

lemma b32_lowered_alnum:
  "filter py_isalnum (filter (\<lambda>c. c \<noteq> CHR ''='') (py_lower (b32encode digest))) =
   map (\<lambda>g. lower_char (b32_alphabet ! nat_of_bits g)) (groups5 (concat (map bits_of_byte digest)))"
proof -
  let ?gs = "groups5 (concat (map bits_of_byte digest))"
  let ?chars = "map (\<lambda>g. lower_char (b32_alphabet ! nat_of_bits g)) ?gs"
  have keep: "\<forall>c \<in> set ?chars. py_isalnum c \<and> c \<noteq> CHR ''=''"
    using b32_char_lowered b32_char_in_alphabet by auto
  have "py_lower (b32encode digest) =
        ?chars @ replicate ((8 - length ?gs mod 8) mod 8) (CHR ''='')"
    by (simp add: py_lower_def b32encode_def Let_def lower_eq_sign comp_def)
  moreover have "filter (\<lambda>c. c \<noteq> CHR ''='') ?chars = ?chars"
    using keep by (intro filter_True) blast
  moreover have "filter py_isalnum ?chars = ?chars"
    using keep by (intro filter_True) blast
  ultimately show ?thesis by simp
qed



lemma label_length:
  assumes "length (sha256 (seed @ '':'' @ timestamp_str @ '':'' @ py_str_int index)) = 32"
    and "0 \<le> label_length"
  shows "length (attacker_generate_domain_label sha256 seed timestamp_str index label_length)
         = min (nat label_length) 52"
proof -
  let ?d = "sha256 (seed @ '':'' @ timestamp_str @ '':'' @ py_str_int index)"
  have "length (filter py_isalnum (filter (\<lambda>c. c \<noteq> CHR ''='') (py_lower (b32encode ?d)))) = 52"
    using assms(1) by (simp add: b32_lowered_alnum length_groups5 length_concat_bits del: filter_filter)
  then show ?thesis using assms(2)
    by (auto simp: attacker_generate_domain_label_def Let_def py_slice_to_def simp del: filter_filter)
qed

text \<open>
  Claim C1. The victim's and the attacker's \<open>generate_domain_label\<close> are the same
  function: for every seed, timestamp, index and label length they return the same
  label, and called with their default label lengths (12 in the victim, \<open>LABEL_LENGTH\<close> in
  the attacker) they agree as well. The label is a function of these arguments and of
  the digest function alone: neither a random source nor a clock is among its inputs, so
  two calls with identical arguments yield identical output.
\<close>

theorem generate_domain_label_shared:
  "victim_generate_domain_label sha256 seed timestamp_str index label_length =
     attacker_generate_domain_label sha256 seed timestamp_str index label_length
   \<and> victim_generate_domain_label sha256 seed timestamp_str index 12 =
     attacker_generate_domain_label sha256 seed timestamp_str index LABEL_LENGTH"
  by (simp add: victim_generate_domain_label_def attacker_generate_domain_label_def LABEL_LENGTH_def)


lemma str_of_nat_digit: "n < 10 \<Longrightarrow> str_of_nat n = [ascii_digits ! n]"
  by (subst str_of_nat.simps) simp

lemma demo_label_values:
  "attacker_generate_domain_label demo_sha256 SEED ''202401010000'' 0 LABEL_LENGTH = ''gaydambqgayd''"
  "attacker_generate_domain_label demo_sha256 SEED ''202401010000'' 1 LABEL_LENGTH = ''geytcmjrgeyt''"
  "attacker_generate_domain_label demo_sha256 SEED ''202401010000'' 2 LABEL_LENGTH = ''gizdemrsgizd''"
  "attacker_generate_domain_label demo_sha256 SEED ''202401010000'' 3 LABEL_LENGTH = ''gmztgmztgmzt''"
  "attacker_generate_domain_label demo_sha256 SEED ''202401010000'' 4 LABEL_LENGTH = ''gq2dinbugq2d''"
  "attacker_generate_domain_label demo_sha256 SEED ''202401010000'' 5 LABEL_LENGTH = ''gu2tknjvgu2t''"
  "attacker_generate_domain_label demo_sha256 SEED ''202401010000'' 6 LABEL_LENGTH = ''gy3dmnrwgy3d''"
  "attacker_generate_domain_label demo_sha256 SEED ''202401010000'' 7 LABEL_LENGTH = ''g43tonzxg43t''"
  "attacker_generate_domain_label demo_sha256 SEED ''202401010000'' 8 LABEL_LENGTH = ''ha4dqobyha4d''"
  "attacker_generate_domain_label demo_sha256 SEED ''202401010000'' 9 LABEL_LENGTH = ''he4tsojzhe4t''"
  by code_simp+

lemma demo_collect:
  "collect_labels (\<lambda>i. attacker_generate_domain_label demo_sha256 SEED ''202401010000'' i LABEL_LENGTH)
     SET_SIZE [] 0 = Some demo_labels"
  by (simp add: collect_labels.simps [of _ 10] Let_def demo_label_values SET_SIZE_def demo_labels_def)

lemma demo_attacker_set:
  "attacker_generate_set demo_sha256 demo_utc_minute SEED () = Some demo_labels"
  by (simp add: attacker_generate_set_def demo_utc_minute_def demo_collect)


lemma upto_set_lessThan: "{0..m - 1} = {0..<m::int}"
  by auto

lemma collected_labels_facts:
  assumes "collect_labels gen SET_SIZE [] 0 = Some labels"
  shows "length labels = 10" and "distinct labels"
    and "\<exists>m. 0 \<le> m \<and> labels = foldl (collect_step gen) [] [0..m - 1]"
    and "\<exists>m. SET_SIZE \<le> int (card (gen ` {0..<m}))"
proof -
  from collect_labels_partial [OF assms] obtain m where
    m: "0 \<le> m" "labels = foldl (collect_step gen) [] [0..m - 1]"
    and len: "int (length labels) = SET_SIZE"
    by (auto simp: SET_SIZE_def)
  from len show l10: "length labels = 10" by (simp add: SET_SIZE_def)
  from m(2) show d: "distinct labels" by (simp add: foldl_collect_step_distinct)
  from m show "\<exists>m. 0 \<le> m \<and> labels = foldl (collect_step gen) [] [0..m - 1]" by blast
  have "set labels = gen ` {0..<m}"
    using m(2) by (simp add: foldl_collect_step_set upto_set_lessThan)
  then have "card (gen ` {0..<m}) = length labels" using d by (metis distinct_card)
  with len show "\<exists>m. SET_SIZE \<le> int (card (gen ` {0..<m}))" by (metis order_refl)
qed


text \<open>
  A label generator without collisions among the first \<open>SET_SIZE\<close> indices (the collision
  resistance across indices that section 4.1 of the specification asks of it) yields
  enough labels for the loop.
\<close>

lemma collision_free_enough:
  "inj_on gen {0..<10::int} \<Longrightarrow> SET_SIZE \<le> int (card (gen ` {0..<10}))"
  by (simp add: card_image SET_SIZE_def)








lemma mset_swap_remove:
  assumes "j < length pool"
  shows "add_mset (pool ! j) (mset (butlast (pool[j := last pool]))) = mset pool"
proof -
  from assms have "pool \<noteq> []" by auto
  then obtain xs z where p: "pool = xs @ [z]" by (metis rev_exhaust)
  show ?thesis
  proof (cases "j = length xs")
    case True
    with p show ?thesis by simp
  next
    case False
    with assms p have j: "j < length xs" by simp
    with p have "butlast (pool[j := last pool]) = xs[j := z]" by (simp add: list_update_append)
    moreover have "pool ! j = xs ! j" using p j by (simp add: nth_append)
    moreover have "add_mset (xs ! j) (mset (xs[j := z])) = add_mset z (mset xs)"
      using j by (simp add: mset_update)
    ultimately show ?thesis using p by simp
  qed
qed

lemma sample_from_mset:
  "k \<le> length pool \<Longrightarrow>
   mset (sample_from rs pool k) \<subseteq># mset pool \<and> length (sample_from rs pool k) = k"
proof (induction k arbitrary: rs pool)
  case 0
  then show ?case by simp
next
  case (Suc k)
  let ?j = "(case rs of [] \<Rightarrow> 0 | r # rs' \<Rightarrow> r) mod length pool"
  let ?pool' = "butlast (pool[?j := last pool])"
  from Suc.prems have ne: "0 < length pool" by linarith
  then have j: "?j < length pool" by simp
  have "length ?pool' = length pool - 1" by simp
  then have "k \<le> length ?pool'" using Suc.prems by linarith
  from Suc.IH [OF this, of "tl rs"]
  have ih: "mset (sample_from (tl rs) ?pool' k) \<subseteq># mset ?pool'"
    and len: "length (sample_from (tl rs) ?pool' k) = k" by simp_all
  have "add_mset (pool ! ?j) (mset (sample_from (tl rs) ?pool' k))
        \<subseteq># add_mset (pool ! ?j) (mset ?pool')"
    using ih by simp
  also have "\<dots> = mset pool" by (rule mset_swap_remove [OF j])
  finally show ?case using len by (simp add: Let_def)
qed

lemma sample_from_distinct:
  assumes "distinct pool" and "k \<le> length pool"
  shows "distinct (sample_from rs pool k)" and "set (sample_from rs pool k) \<subseteq> set pool"
    and "card (set (sample_from rs pool k)) = k"
proof -
  let ?S = "sample_from rs pool k"
  from sample_from_mset [OF assms(2), of rs]
  have sub: "mset ?S \<subseteq># mset pool" and len: "length ?S = k" by simp_all
  have le1: "count (mset ?S) a \<le> 1" for a
  proof -
    have "count (mset ?S) a \<le> count (mset pool) a" by (rule mset_subset_eq_count [OF sub])
    also have "\<dots> \<le> 1" using assms(1) by (simp add: distinct_count_atmost_1)
    finally show ?thesis .
  qed
  show d: "distinct ?S"
    unfolding distinct_count_atmost_1
  proof (intro allI)
    fix a
    show "count (mset ?S) a = (if a \<in> set ?S then 1 else 0)"
    proof (cases "a \<in> set ?S")
      case True
      then have "count (mset ?S) a \<noteq> 0" by simp
      with le1 [of a] have "count (mset ?S) a = 1" by linarith
      with True show ?thesis by (simp only: if_True)
    next
      case False
      then show ?thesis by simp
    qed
  qed
  from sub have "set_mset (mset ?S) \<subseteq> set_mset (mset pool)" by (rule set_mset_mono)
  then show "set ?S \<subseteq> set pool" by simp
  from d len show "card (set ?S) = k" by (simp add: distinct_card)
qed

lemma rotate_step_invariant:
  assumes "rotate_step sha256 utc_minute set_time rs st = Some res"
  shows "\<exists>st'. res = Inr st' \<and> subset_invariant st' \<and> length (current_labels st') = 10
               \<and> distinct (current_labels st')"
proof -
  from assms obtain labels where
    g: "attacker_generate_set sha256 utc_minute SEED set_time = Some labels"
    and res: "res = exn_bind (random_sample rs labels (min ACTIVE_PER_SET (int (length labels))))
                  (\<lambda>sample. Inr (st\<lparr>current_labels := labels, current_active := set sample\<rparr>))"
    by (auto simp: rotate_step_def Let_def split: option.splits)
  from g have c: "collect_labels (\<lambda>i. attacker_generate_domain_label sha256 SEED (utc_minute set_time) i
                     LABEL_LENGTH) SET_SIZE [] 0 = Some labels"
    by (simp add: attacker_generate_set_def)
  note f = collected_labels_facts(1,2) [OF c]
  have k: "min ACTIVE_PER_SET (int (length labels)) = 5" using f(1) by (simp add: ACTIVE_PER_SET_def)
  have s: "random_sample rs labels 5 = Inr (sample_from rs labels 5)"
    using f(1) by (simp add: random_sample_def)
  from sample_from_distinct [OF f(2), of 5 rs] f(1)
  have "set (sample_from rs labels 5) \<subseteq> set labels" "card (set (sample_from rs labels 5)) = 5"
    by simp_all
  then have "subset_invariant (st\<lparr>current_labels := labels, current_active := set (sample_from rs labels 5)\<rparr>)"
    using f(1) by (simp add: subset_invariant_def ACTIVE_PER_SET_def)
  with res k s f show ?thesis by (simp add: exn_bind_def ACTIVE_PER_SET_def)
qed

lemma initial_invariant: "subset_invariant initial_attacker_state"
  by (simp add: subset_invariant_def initial_attacker_state_def ACTIVE_PER_SET_def)

lemma rotate_sets_loop_invariant:
  "subset_invariant st \<Longrightarrow> rotate_sets_loop sha256 utc_minute passes st = Some res \<Longrightarrow>
   \<exists>st'. res = Inr st' \<and> subset_invariant st'"
proof (induction passes arbitrary: st)
  case Nil
  then show ?case by auto
next
  case (Cons p passes)
  obtain set_time rs where p: "p = (set_time, rs)" by (cases p)
  from Cons.prems(2) p obtain r where r: "rotate_step sha256 utc_minute set_time rs st = Some r"
    by (auto split: option.splits)
  from rotate_step_invariant [OF r] obtain st1 where
    st1: "r = Inr st1" "subset_invariant st1" by blast
  with Cons.prems(2) p r have "rotate_sets_loop sha256 utc_minute passes st1 = Some res" by simp
  from Cons.IH [OF st1(2) this] show ?case .
qed

text \<open>
  Claim C3. After every rotation step of the attacker's rotation loop, the published state
  satisfies ActiveSet \<subseteq> LabelSet and |ActiveSet| = min(\<open>ACTIVE_PER_SET\<close>, |LabelSet|): this
  holds of the state that one pass publishes, from any state and for any random numbers,
  and of the state after any number of passes from the initial state. No pass raises
  (\<open>random.sample\<close> is never asked for more than the set holds).
\<close>

theorem rotation_subset_invariant:
  "(\<forall>res. rotate_step sha256 utc_minute set_time rs st = Some res \<longrightarrow>
      (\<exists>st'. res = Inr st'
         \<and> current_active st' \<subseteq> set (current_labels st')
         \<and> int (card (current_active st')) = min ACTIVE_PER_SET (int (length (current_labels st')))))
   \<and> (\<forall>res. rotate_sets_loop sha256 utc_minute passes initial_attacker_state = Some res \<longrightarrow>
      (\<exists>st'. res = Inr st'
         \<and> current_active st' \<subseteq> set (current_labels st')
         \<and> int (card (current_active st')) = min ACTIVE_PER_SET (int (length (current_labels st')))))"
  using rotate_step_invariant [of sha256 utc_minute set_time rs st]
    rotate_sets_loop_invariant [OF initial_invariant, of sha256 utc_minute passes]
  unfolding subset_invariant_def by blast

lemma demo_rotate_step:
  "rotate_step demo_sha256 demo_utc_minute () [3, 1, 4, 1, 5] initial_attacker_state =
     Some (Inr \<lparr>current_labels = demo_labels,
                current_active = {''gmztgmztgmzt'', ''geytcmjrgeyt'', ''gq2dinbugq2d'',
                                  ''ha4dqobyha4d'', ''gu2tknjvgu2t''}\<rparr>)"
proof -
  have "sample_from [3, 1, 4, 1, 5] demo_labels 5 =
        [''gmztgmztgmzt'', ''geytcmjrgeyt'', ''gq2dinbugq2d'', ''ha4dqobyha4d'', ''gu2tknjvgu2t'']"
    by code_simp
  moreover have "length demo_labels = 10" by (simp add: demo_labels_def)
  ultimately show ?thesis
    by (simp add: rotate_step_def SEED_def [symmetric] demo_attacker_set random_sample_def
        ACTIVE_PER_SET_def exn_bind_def initial_attacker_state_def)
qed

theorem rotation_subset_invariant_witness:
  "rotate_step demo_sha256 demo_utc_minute () [3, 1, 4, 1, 5] initial_attacker_state =
     Some (Inr \<lparr>current_labels = demo_labels,
                current_active = {''gmztgmztgmzt'', ''geytcmjrgeyt'', ''gq2dinbugq2d'',
                                  ''ha4dqobyha4d'', ''gu2tknjvgu2t''}\<rparr>)
   \<and> {''gmztgmztgmzt'', ''geytcmjrgeyt'', ''gq2dinbugq2d'', ''ha4dqobyha4d'', ''gu2tknjvgu2t''}
       \<subseteq> set demo_labels
   \<and> int (card {''gmztgmztgmzt'', ''geytcmjrgeyt'', ''gq2dinbugq2d'', ''ha4dqobyha4d'', ''gu2tknjvgu2t''})
       = min ACTIVE_PER_SET (int (length demo_labels))
   \<and> rotate_sets_loop demo_sha256 demo_utc_minute [((), [3, 1, 4, 1, 5])] initial_attacker_state =
       Some (Inr \<lparr>current_labels = demo_labels,
                  current_active = {''gmztgmztgmzt'', ''geytcmjrgeyt'', ''gq2dinbugq2d'',
                                    ''ha4dqobyha4d'', ''gu2tknjvgu2t''}\<rparr>)"
  using rotation_subset_invariant [of demo_sha256 demo_utc_minute "()" "[3, 1, 4, 1, 5]"
      initial_attacker_state "[((), [3, 1, 4, 1, 5])]"]
    demo_rotate_step
  by simp

end
